theory Spec2Isabelle
  imports Main
begin

section \<open>Go values, memory and errors\<close>

text \<open>
  The engine of \<^verbatim>\<open>main.go\<close> handles arguments of type \<^verbatim>\<open>interface{}\<close>. The values
  covered here are booleans, integers, strings, named structs with exported fields
  and no field tags,
  channels (the kind that \<^verbatim>\<open>encoding/json\<close> cannot encode), pointers to such data,
  typed nil pointers and the nil interface. No arithmetic is done on an integer
  argument, so \<open>int\<close> stands for Go's \<^verbatim>\<open>int\<close>. Data cells hold no pointer themselves;
  a pointer argument is an address into an explicit memory, since the engine writes
  through it.
\<close>

type_synonym addr = nat

datatype data =
    DBool bool
  | DInt int
  | DString string
  | DStruct string "(string \<times> data) list"
  | DChan nat

type_synonym heap = "addr \<Rightarrow> data"

datatype gval =
    NilIface
  | Val data
  | Ptr addr
  | NilPtr string

text \<open>
  A stored output: the independent structural copy that \<^verbatim>\<open>WithOutput\<close> keeps. The
  copy of a pointer owns its referent, so it does not change when the memory does.
\<close>

datatype snap =
    SNil
  | SVal data
  | SRef data
  | SNilRef string

datatype kind = Kind_Bool | Kind_Int | Kind_String | Kind_Struct | Kind_Chan | Kind_Ptr

datatype error =
    UnexpectedCall string
  | UnexpectedCallExpected string string
  | NotEnoughParameters
  | TooManyParameters
  | UnexpectedParameter gval string gval
  | OutParametersMustBePointers kind
  | NotAllExpectationsMet
  | OtherError string

text \<open>
  A run-time panic of the Go program: an index out of range, or a method call on a nil
  interface value.
\<close>

datatype panic = IndexOutOfRange | NilDereference

fun kind_of_data :: "data \<Rightarrow> kind" where
  "kind_of_data (DBool _) = Kind_Bool"
| "kind_of_data (DInt _) = Kind_Int"
| "kind_of_data (DString _) = Kind_String"
| "kind_of_data (DStruct _ _) = Kind_Struct"
| "kind_of_data (DChan _) = Kind_Chan"

text \<open>
  \<^verbatim>\<open>reflect.TypeOf(v)\<close> read through \<^verbatim>\<open>Kind()\<close>: the type of a nil interface is the
  nil \<^verbatim>\<open>Type\<close>, here \<open>None\<close>, and calling \<^verbatim>\<open>Kind()\<close> on it panics.
\<close>

fun TypeOf :: "gval \<Rightarrow> kind option" where
  "TypeOf NilIface = None"
| "TypeOf (Val d) = Some (kind_of_data d)"
| "TypeOf (Ptr _) = Some Kind_Ptr"
| "TypeOf (NilPtr _) = Some Kind_Ptr"

text \<open>
  \<^verbatim>\<open>reflect.DeepEqual\<close>: values of different types are never equal; data is compared
  by content; two pointers are equal when they are the same pointer or when their
  referents are deeply equal; typed nil pointers are equal when their types are.
\<close>

fun DeepEqual :: "heap \<Rightarrow> gval \<Rightarrow> gval \<Rightarrow> bool" where
  "DeepEqual h NilIface NilIface = True"
| "DeepEqual h (Val d) (Val d') = (d = d')"
| "DeepEqual h (Ptr a) (Ptr b) = (a = b \<or> h a = h b)"
| "DeepEqual h (NilPtr t) (NilPtr t') = (t = t')"
| "DeepEqual h _ _ = False"

section \<open>The serialization library\<close>

text \<open>
  \<^verbatim>\<open>json.Marshal\<close> and \<^verbatim>\<open>json.Unmarshal\<close> are not code of the repository: the
  engine takes them as the two operations of a codec. \<open>Marshal\<close> encodes a stored value
  or fails; \<open>Unmarshal\<close> decodes into the destination argument, returning the memory
  it leaves and its error, if any.
\<close>

record 'enc codec =
  Marshal :: "snap \<Rightarrow> error + 'enc"
  Unmarshal :: "'enc \<Rightarrow> gval \<Rightarrow> heap \<Rightarrow> heap \<times> error option"

section \<open>The handle and its expectations\<close>

record expectation =
  Function :: string
  Params :: "gval list"
  Output :: "snap list"
  Error_exp :: "error option"

text \<open>
  The handle \<^verbatim>\<open>DB\<close>. Its field \<^verbatim>\<open>db\<close>, the \<^verbatim>\<open>sqlmock\<close> connection, is never read by
  the engine and is left out. \<^verbatim>\<open>index\<close> only grows while it is below the length of a
  slice, so it never reaches the end of Go's \<^verbatim>\<open>int\<close> and is a natural number here.
\<close>

record DB =
  Error :: "error option"
  expectations :: "expectation list"
  index :: nat
  testErrors :: "error list"

text \<open>
  \<^verbatim>\<open>Open\<close> returns a handle whose engine fields are all zero, whatever its arguments
  are; the error of \<^verbatim>\<open>sqlmock.New\<close> is returned beside the handle, not stored in it.
\<close>

definition Open :: DB where
  "Open = \<lparr>Error = None, expectations = [], index = 0, testErrors = []\<rparr>"

definition ExpectationsMet :: "DB \<Rightarrow> error option" where
  "ExpectationsMet it =
     (if length (testErrors it) > 0 then Some (testErrors it ! 0)
      else if index it < length (expectations it) then Some NotAllExpectationsMet
      else None)"

subsection \<open>Declaring expectations\<close>

definition ExpectCall :: "string \<Rightarrow> DB \<Rightarrow> DB" where
  "ExpectCall fn it =
     it\<lparr>expectations := expectations it @
          [\<lparr>Function = fn, Params = [], Output = [], Error_exp = None\<rparr>]\<rparr>"

definition WithParams :: "gval list \<Rightarrow> expectation \<Rightarrow> expectation" where
  "WithParams params e = foldl (\<lambda>e p. e\<lparr>Params := Params e @ [p]\<rparr>) e params"

text \<open>
  Modelled from the spec: \<^verbatim>\<open>Copy\<close>, which \<^verbatim>\<open>WithOutput\<close> calls and which is not
  among the sources. The spec has each output "captured as an independent structural
  copy at declaration time so later mutation of the original does not affect the
  stored expectation": the copy of a pointer takes the referent as the memory holds it
  at that moment.
\<close>

fun Copy :: "heap \<Rightarrow> gval \<Rightarrow> snap" where
  "Copy h NilIface = SNil"
| "Copy h (Val d) = SVal d"
| "Copy h (Ptr a) = SRef (h a)"
| "Copy h (NilPtr t) = SNilRef t"

definition WithOutput :: "heap \<Rightarrow> gval list \<Rightarrow> expectation \<Rightarrow> expectation" where
  "WithOutput h output e = foldl (\<lambda>e v. e\<lparr>Output := Output e @ [Copy h v]\<rparr>) e output"

definition WithError :: "error option \<Rightarrow> expectation \<Rightarrow> expectation" where
  "WithError err e = e\<lparr>Error_exp := err\<rparr>"

text \<open>
  \<^verbatim>\<open>ExpectCall\<close> returns a pointer to the expectation it appended, and the builder
  methods are chained on it: \<^verbatim>\<open>db.ExpectCall("First").WithParams(1).WithError(e)\<close>.
  One such chain is a name and the list of builder calls that follow it.
\<close>

datatype builder_call =
    CallWithParams "gval list"
  | CallWithOutput "gval list"
  | CallWithError "error option"

fun builder :: "heap \<Rightarrow> expectation \<Rightarrow> builder_call \<Rightarrow> expectation" where
  "builder h e (CallWithParams params) = WithParams params e"
| "builder h e (CallWithOutput output) = WithOutput h output e"
| "builder h e (CallWithError err) = WithError err e"

definition expect_chain :: "heap \<Rightarrow> string \<times> builder_call list \<Rightarrow> DB \<Rightarrow> DB" where
  "expect_chain h ch it =
     (let it' = ExpectCall (fst ch) it;
          n = length (expectations it') - 1
      in it'\<lparr>expectations := (expectations it')[n := foldl (builder h) (expectations it' ! n) (snd ch)]\<rparr>)"

definition expect_all :: "heap \<Rightarrow> (string \<times> builder_call list) list \<Rightarrow> DB \<Rightarrow> DB" where
  "expect_all h chs it = foldl (\<lambda>it ch. expect_chain h ch it) it chs"

subsection \<open>The matching step\<close>

fun split_on :: "char \<Rightarrow> string \<Rightarrow> string list" where
  "split_on c [] = [[]]"
| "split_on c (x # xs) =
     (if x = c then [] # split_on c xs
      else (case split_on c xs of p # ps \<Rightarrow> (x # p) # ps | [] \<Rightarrow> [[x]]))"

text \<open>
  \<^verbatim>\<open>getFnName\<close>: \<^verbatim>\<open>runtime.Callers(3, pc)\<close> skips \<^verbatim>\<open>Callers\<close>, \<^verbatim>\<open>getFnName\<close> and
  \<^verbatim>\<open>query\<close>, so the one frame it reads is that of the method that called \<^verbatim>\<open>query\<close>.
  The argument is that frame's qualified function name; \<^verbatim>\<open>strings.Split\<close> never
  returns an empty slice, so the last part exists.
\<close>

definition getFnName :: "string \<Rightarrow> string" where
  "getFnName frame = (let pathParts = split_on (CHR ''.'') frame in pathParts ! (length pathParts - 1))"

fun verifyParams_loop :: "heap \<Rightarrow> string \<Rightarrow> gval list \<Rightarrow> gval list \<Rightarrow> nat \<Rightarrow> panic + error option" where
  "verifyParams_loop h fn [] exps i = Inr None"
| "verifyParams_loop h fn (p # ps) exps i =
     (if i \<ge> length exps then Inl IndexOutOfRange
      else if \<not> DeepEqual h p (exps ! i) then Inr (Some (UnexpectedParameter p fn (exps ! i)))
      else verifyParams_loop h fn ps exps (Suc i))"

definition verifyParams :: "heap \<Rightarrow> string \<Rightarrow> gval list \<Rightarrow> DB \<Rightarrow> panic + error option" where
  "verifyParams h fn params it =
     (if index it \<ge> length (expectations it) then Inl IndexOutOfRange
      else let e = expectations it ! index it in
        if length (Params e) = 0 then Inr None
        else if length (Params e) > length params then Inr (Some NotEnoughParameters)
        else if length (Params e) < length params then Inr (Some TooManyParameters)
        else verifyParams_loop h fn params (Params e) 0)"

definition deepCopy :: "'enc codec \<Rightarrow> snap \<Rightarrow> gval \<Rightarrow> heap \<Rightarrow> heap \<times> error option" where
  "deepCopy lib src dst h =
     (case Marshal lib src of
        Inl err \<Rightarrow> (h, Some err)
      | Inr encoded \<Rightarrow> Unmarshal lib encoded dst h)"

text \<open>
  The loop of \<^verbatim>\<open>setOutputParams\<close> over the remaining arguments, \<open>i\<close> being the position
  of the first of them. The error that \<^verbatim>\<open>deepCopy\<close> returns is dropped, as in the
  source, which calls it as a statement.
\<close>

fun setOutputParams_loop ::
  "'enc codec \<Rightarrow> snap list \<Rightarrow> gval list \<Rightarrow> nat \<Rightarrow> heap \<Rightarrow> panic + (error option \<times> heap)" where
  "setOutputParams_loop lib outs [] i h = Inr (None, h)"
| "setOutputParams_loop lib outs (p # ps) i h =
     (if i \<ge> length outs then Inr (None, h)
      else (case TypeOf p of
              None \<Rightarrow> Inl NilDereference
            | Some k \<Rightarrow>
                if k \<noteq> Kind_Ptr then Inr (Some (OutParametersMustBePointers k), h)
                else setOutputParams_loop lib outs ps (Suc i) (fst (deepCopy lib (outs ! i) p h))))"

definition setOutputParams ::
  "'enc codec \<Rightarrow> gval list \<Rightarrow> DB \<Rightarrow> heap \<Rightarrow> panic + (error option \<times> heap)" where
  "setOutputParams lib params it h =
     (if index it \<ge> length (expectations it) then Inl IndexOutOfRange
      else if length (Output (expectations it ! index it)) = 0 then Inr (None, h)
      else setOutputParams_loop lib (Output (expectations it ! index it)) params 0 h)"

definition setError :: "DB \<Rightarrow> panic + DB" where
  "setError it =
     (if index it \<ge> length (expectations it) then Inl IndexOutOfRange
      else Inr (it\<lparr>Error := Error_exp (expectations it ! index it)\<rparr>))"

definition record_error :: "error option \<Rightarrow> DB \<Rightarrow> DB" where
  "record_error err it =
     (case err of None \<Rightarrow> it | Some e \<Rightarrow> it\<lparr>testErrors := testErrors it @ [e]\<rparr>)"

definition query :: "'enc codec \<Rightarrow> string \<Rightarrow> gval list \<Rightarrow> DB \<times> heap \<Rightarrow> panic + DB \<times> heap" where
  "query lib frame params s =
     (let it = fst s; h = snd s; fnName = getFnName frame in
      if index it \<ge> length (expectations it)
      then Inr (it\<lparr>testErrors := testErrors it @ [UnexpectedCall fnName]\<rparr>, h)
      else
        (let expected = Function (expectations it ! index it);
             it1 = (if fnName \<noteq> expected
                    then it\<lparr>testErrors := testErrors it @ [UnexpectedCallExpected fnName expected]\<rparr>
                    else it)
         in (case verifyParams h fnName params it1 of
               Inl p \<Rightarrow> Inl p
             | Inr err \<Rightarrow>
                 (let it2 = record_error err it1
                  in (case setOutputParams lib params it2 h of
                        Inl p \<Rightarrow> Inl p
                      | Inr (err', h') \<Rightarrow>
                          (let it3 = record_error err' it2
                           in (case setError it3 of
                                 Inl p \<Rightarrow> Inl p
                               | Inr it4 \<Rightarrow> Inr (it4\<lparr>index := index it4 + 1\<rparr>, h'))))))))"

subsection \<open>The intercepted operations\<close>

datatype call =
    Select "gval list"
  | First "gval list"
  | Find "gval list"
  | Related "gval list"
  | Update "gval list"
  | Save gval
  | Create gval
  | CreateTable "gval list"
  | HasTable gval
  | Where "gval list"
  | Model gval
  | Table gval
  | Joins gval
  | Scan gval
  | Delete gval

definition method_frame :: "string \<Rightarrow> string" where
  "method_frame m = ''github.com/jinzhu/gorm.(*DB).'' @ m"

text \<open>
  Each method passes its arguments to \<^verbatim>\<open>query\<close> and returns the handle
  (\<^verbatim>\<open>HasTable\<close> returns \<^verbatim>\<open>true\<close>); the result here is the state that \<^verbatim>\<open>query\<close> leaves.
\<close>

fun invoke :: "'enc codec \<Rightarrow> call \<Rightarrow> DB \<times> heap \<Rightarrow> panic + DB \<times> heap" where
  "invoke lib (Select params) s = query lib (method_frame ''Select'') params s"
| "invoke lib (First params) s = query lib (method_frame ''First'') params s"
| "invoke lib (Find params) s = query lib (method_frame ''Find'') params s"
| "invoke lib (Related params) s = query lib (method_frame ''Related'') params s"
| "invoke lib (Update attrs) s = query lib (method_frame ''Update'') attrs s"
| "invoke lib (Save v) s = query lib (method_frame ''Save'') [v] s"
| "invoke lib (Create v) s = query lib (method_frame ''Create'') [v] s"
| "invoke lib (CreateTable vs) s = query lib (method_frame ''CreateTable'') vs s"
| "invoke lib (HasTable v) s = query lib (method_frame ''HasTable'') [v] s"
| "invoke lib (Where params) s = query lib (method_frame ''Where'') params s"
| "invoke lib (Model v) s = query lib (method_frame ''Model'') [v] s"
| "invoke lib (Table v) s = query lib (method_frame ''Table'') [v] s"
| "invoke lib (Joins v) s = query lib (method_frame ''Joins'') [v] s"
| "invoke lib (Scan v) s = query lib (method_frame ''Scan'') [v] s"
| "invoke lib (Delete v) s = query lib (method_frame ''Delete'') [v] s"

fun call_name :: "call \<Rightarrow> string" where
  "call_name (Select _) = ''Select''"
| "call_name (First _) = ''First''"
| "call_name (Find _) = ''Find''"
| "call_name (Related _) = ''Related''"
| "call_name (Update _) = ''Update''"
| "call_name (Save _) = ''Save''"
| "call_name (Create _) = ''Create''"
| "call_name (CreateTable _) = ''CreateTable''"
| "call_name (HasTable _) = ''HasTable''"
| "call_name (Where _) = ''Where''"
| "call_name (Model _) = ''Model''"
| "call_name (Table _) = ''Table''"
| "call_name (Joins _) = ''Joins''"
| "call_name (Scan _) = ''Scan''"
| "call_name (Delete _) = ''Delete''"

fun call_args :: "call \<Rightarrow> gval list" where
  "call_args (Select params) = params"
| "call_args (First params) = params"
| "call_args (Find params) = params"
| "call_args (Related params) = params"
| "call_args (Update attrs) = attrs"
| "call_args (Save v) = [v]"
| "call_args (Create v) = [v]"
| "call_args (CreateTable vs) = vs"
| "call_args (HasTable v) = [v]"
| "call_args (Where params) = params"
| "call_args (Model v) = [v]"
| "call_args (Table v) = [v]"
| "call_args (Joins v) = [v]"
| "call_args (Scan v) = [v]"
| "call_args (Delete v) = [v]"

text \<open>A sequence of intercepted calls on one handle; a panic ends it.\<close>

fun run :: "'enc codec \<Rightarrow> call list \<Rightarrow> DB \<times> heap \<Rightarrow> panic + DB \<times> heap" where
  "run lib [] s = Inr s"
| "run lib (c # cs) s = (case invoke lib c s of Inl p \<Rightarrow> Inl p | Inr s' \<Rightarrow> run lib cs s')"

section \<open>Notions used by the statements\<close>

definition errs_of :: "error option \<Rightarrow> error list" where
  "errs_of err = (case err of None \<Rightarrow> [] | Some e \<Rightarrow> [e])"

definition name_errs :: "string \<Rightarrow> string \<Rightarrow> error list" where
  "name_errs fn expected = (if fn \<noteq> expected then [UnexpectedCallExpected fn expected] else [])"

fun is_count_mismatch :: "error \<Rightarrow> bool" where
  "is_count_mismatch NotEnoughParameters = True"
| "is_count_mismatch TooManyParameters = True"
| "is_count_mismatch _ = False"

fun is_value_mismatch :: "error \<Rightarrow> bool" where
  "is_value_mismatch (UnexpectedParameter _ _ _) = True"
| "is_value_mismatch _ = False"

text \<open>The errors a call has added to those collected before it.\<close>

definition new_errors :: "DB \<Rightarrow> DB \<Rightarrow> error list" where
  "new_errors it it' = drop (length (testErrors it)) (testErrors it')"

text \<open>The error an expectation chain declares: that of its last \<^verbatim>\<open>WithError\<close>, if any.\<close>

definition declared_error :: "builder_call list \<Rightarrow> error option" where
  "declared_error bs =
     foldl (\<lambda>acc b. case b of CallWithError err \<Rightarrow> err | _ \<Rightarrow> acc) None bs"

text \<open>
  A call matches an expectation, in a given memory: it is the expected operation;
  either the expectation declares no parameters, which accepts any arguments, or the
  arguments are deeply equal to the declared parameters, position by position; and
  every argument at a position with a declared output is of pointer kind.
\<close>

definition matches :: "heap \<Rightarrow> expectation \<Rightarrow> call \<Rightarrow> bool" where
  "matches h e c \<longleftrightarrow>
     call_name c = Function e \<and>
     (Params e = [] \<or> list_all2 (DeepEqual h) (call_args c) (Params e)) \<and>
     list_all (\<lambda>p. TypeOf p = Some Kind_Ptr) (take (length (Output e)) (call_args c))"

text \<open>
  The memory after the declared outputs have been copied, in order, into the arguments
  at their positions.
\<close>

definition projected :: "'enc codec \<Rightarrow> snap list \<Rightarrow> gval list \<Rightarrow> heap \<Rightarrow> heap" where
  "projected lib outs args h = foldl (\<lambda>h (out, arg). fst (deepCopy lib out arg h)) h (zip outs args)"

text \<open>
  What the code under test does with a handle: it invokes intercepted operations,
  and between two of them it may assign to its own variables.
\<close>

datatype step = Invoke call | Assign addr data

fun session :: "'enc codec \<Rightarrow> step list \<Rightarrow> DB \<times> heap \<Rightarrow> panic + DB \<times> heap" where
  "session lib [] s = Inr s"
| "session lib (Invoke c # ss) s =
     (case invoke lib c s of Inl p \<Rightarrow> Inl p | Inr s' \<Rightarrow> session lib ss s')"
| "session lib (Assign a d # ss) s = session lib ss (fst s, (snd s)(a := d))"

text \<open>
  The invoked operations are the declared ones, one for one and in order, each
  matching its expectation in the memory as it is at the moment of the call, after
  the outputs of the earlier calls and the assignments made so far.
\<close>

fun conforming :: "'enc codec \<Rightarrow> heap \<Rightarrow> expectation list \<Rightarrow> step list \<Rightarrow> bool" where
  "conforming lib h es [] = (es = [])"
| "conforming lib h es (Assign a d # ss) = conforming lib (h(a := d)) es ss"
| "conforming lib h [] (Invoke c # ss) = False"
| "conforming lib h (e # es) (Invoke c # ss) =
     (matches h e c \<and> conforming lib (projected lib (Output e) (call_args c) h) es ss)"

text \<open>The data a stored output holds, directly or behind its pointer.\<close>

fun stored_data :: "snap \<Rightarrow> data option" where
  "stored_data (SVal d) = Some d"
| "stored_data (SRef d) = Some d"
| "stored_data _ = None"

text \<open>
  The type of a variable is the type of the data it holds; a struct type is known by
  its name.
\<close>

datatype ty = TBool | TInt | TString | TStruct string | TChan

fun type_of :: "data \<Rightarrow> ty" where
  "type_of (DBool _) = TBool"
| "type_of (DInt _) = TInt"
| "type_of (DString _) = TString"
| "type_of (DStruct n _) = TStruct n"
| "type_of (DChan _) = TChan"

text \<open>
  A stored output is representable in the round trip into a destination \<open>a\<close> of type
  \<open>t\<close>: it can be encoded, and decoding into \<open>a\<close> stores the output's data there and
  touches nothing else, whatever data of type \<open>t\<close> the destination held before.
\<close>

definition representable :: "'enc codec \<Rightarrow> snap \<Rightarrow> addr \<Rightarrow> ty \<Rightarrow> bool" where
  "representable lib out a t \<longleftrightarrow>
     (\<exists>enc v. Marshal lib out = Inr enc \<and> stored_data out = Some v \<and>
        (\<forall>h1. type_of (h1 a) = t \<longrightarrow> Unmarshal lib enc (Ptr a) h1 = (h1(a := v), None)))"

text \<open>What a test reads after a run: the handle, and the data at some addresses.\<close>

definition observe :: "addr list \<Rightarrow> panic + DB \<times> heap \<Rightarrow> panic + DB \<times> data list" where
  "observe as r = (case r of Inl p \<Rightarrow> Inl p | Inr s \<Rightarrow> Inr (fst s, map (snd s) as))"

subsection \<open>An instance of the serialization library\<close>

text \<open>
  The instance follows \<^verbatim>\<open>encoding/json\<close> on the values of this development. A value
  that holds a channel cannot be encoded; a nil interface and a nil pointer encode as
  \<^verbatim>\<open>null\<close>, here \<open>None\<close>; any other value encodes as a document carrying its data,
  in which every byte of a string that does not begin a valid UTF-8 sequence has
  become the replacement character U+FFFD, as \<^verbatim>\<open>json.Marshal\<close> writes it.
  Decoding needs a non-nil pointer; \<^verbatim>\<open>null\<close> leaves data of these kinds as it is; a
  document decoded into a destination of its own type replaces the destination. Where
  the types differ the instance reports a type error and leaves the destination as it
  is: so does the library for the scalar kinds, while for two different struct types it
  would fill the fields whose names agree. No statement below evaluates the instance
  at two different struct types, and none depends on what it does there: a round trip
  that stores the data of one struct type in a variable of another is representable
  neither in the instance nor in the library.
\<close>

fun has_chan :: "data \<Rightarrow> bool" where
  "has_chan (DChan _) = True"
| "has_chan (DStruct _ fs) = (\<exists>f \<in> set fs. has_chan (snd f))"
| "has_chan _ = False"

text \<open>
  The length of the UTF-8 sequence at the head of a list of bytes, 0 when the first
  byte begins no valid sequence (the table of \<^verbatim>\<open>utf8.DecodeRune\<close>).
\<close>

definition cont :: "nat \<Rightarrow> bool" where
  "cont b \<longleftrightarrow> 128 \<le> b \<and> b \<le> 191"

fun utf8_size :: "nat list \<Rightarrow> nat" where
  "utf8_size [] = 0"
| "utf8_size (b0 # bs) =
     (if b0 < 128 then 1
      else if 194 \<le> b0 \<and> b0 \<le> 223 then
        (case bs of b1 # _ \<Rightarrow> if cont b1 then 2 else 0 | _ \<Rightarrow> 0)
      else if 224 \<le> b0 \<and> b0 \<le> 239 then
        (case bs of b1 # b2 # _ \<Rightarrow>
           if (if b0 = 224 then 160 \<le> b1 \<and> b1 \<le> 191
               else if b0 = 237 then 128 \<le> b1 \<and> b1 \<le> 159
               else cont b1) \<and> cont b2 then 3 else 0
         | _ \<Rightarrow> 0)
      else if 240 \<le> b0 \<and> b0 \<le> 244 then
        (case bs of b1 # b2 # b3 # _ \<Rightarrow>
           if (if b0 = 240 then 144 \<le> b1 \<and> b1 \<le> 191
               else if b0 = 244 then 128 \<le> b1 \<and> b1 \<le> 143
               else cont b1) \<and> cont b2 \<and> cont b3 then 4 else 0
         | _ \<Rightarrow> 0)
      else 0)"

text \<open>
  The string that \<^verbatim>\<open>json.Marshal\<close> writes for a Go string, read back: \<open>k\<close> is the
  number of bytes still to copy from the valid sequence under way.
\<close>

fun to_valid_utf8 :: "nat \<Rightarrow> string \<Rightarrow> string" where
  "to_valid_utf8 k [] = []"
| "to_valid_utf8 (Suc k) (c # cs) = c # to_valid_utf8 k cs"
| "to_valid_utf8 0 (c # cs) =
     (let n = utf8_size (map of_char (c # cs)) in
      if n = 0
      then char_of (239 :: nat) # char_of (191 :: nat) # char_of (189 :: nat) # to_valid_utf8 0 cs
      else c # to_valid_utf8 (n - 1) cs)"

fun document :: "data \<Rightarrow> data" where
  "document (DString s) = DString (to_valid_utf8 0 s)"
| "document (DStruct n fs) = DStruct n (map (map_prod id document) fs)"
| "document d = d"

definition json_encode :: "data \<Rightarrow> error + data option" where
  "json_encode d =
     (if has_chan d then Inl (OtherError ''json: unsupported type'') else Inr (Some (document d)))"

fun json_Marshal :: "snap \<Rightarrow> error + data option" where
  "json_Marshal SNil = Inr None"
| "json_Marshal (SNilRef _) = Inr None"
| "json_Marshal (SVal d) = json_encode d"
| "json_Marshal (SRef d) = json_encode d"

fun json_Unmarshal :: "data option \<Rightarrow> gval \<Rightarrow> heap \<Rightarrow> heap \<times> error option" where
  "json_Unmarshal None (Ptr a) h = (h, None)"
| "json_Unmarshal (Some d) (Ptr a) h =
     (if type_of d = type_of (h a) then (h(a := d), None)
      else (h, Some (OtherError ''json: cannot unmarshal into Go value'')))"
| "json_Unmarshal _ _ h = (h, Some (OtherError ''json: Unmarshal(nil or non-pointer)''))"

definition json_codec :: "data option codec" where
  "json_codec = \<lparr>Marshal = json_Marshal, Unmarshal = json_Unmarshal\<rparr>"

subsection \<open>A memory for the examples\<close>

definition user :: "string \<Rightarrow> data" where
  "user n = DStruct ''User'' [(''Name'', DString n)]"

text \<open>
  Three variables of type \<^verbatim>\<open>User\<close> at the addresses 1, 2 and 3, the first two with
  the same content, and integers equal to 0 everywhere else.
\<close>

definition mem0 :: heap where
  "mem0 = (\<lambda>_. DInt 0)(1 := user ''Al'', 2 := user ''Al'', 3 := user ''Bo'')"

section \<open>Basic facts\<close>

lemma invoke_query: "invoke lib c s = query lib (method_frame (call_name c)) (call_args c) s"
  by (cases c) simp_all

lemma getFnName_call: "getFnName (method_frame (call_name c)) = call_name c"
  by (cases c) (simp_all add: getFnName_def method_frame_def)

lemma record_error_simps:
  "index (record_error err it) = index it"
  "expectations (record_error err it) = expectations it"
  "Error (record_error err it) = Error it"
  "testErrors (record_error err it) = testErrors it @ errs_of err"
  by (simp_all add: record_error_def errs_of_def split: option.splits)

lemma verifyParams_loop_no_panic:
  "length ps + i \<le> length exps \<Longrightarrow> \<exists>r. verifyParams_loop h fn ps exps i = Inr r"
  by (induction ps arbitrary: i) auto

lemma verifyParams_no_panic:
  "index it < length (expectations it) \<Longrightarrow> \<exists>r. verifyParams h fn ps it = Inr r"
  using verifyParams_loop_no_panic [of ps 0 "Params (expectations it ! index it)" h fn]
  by (auto simp: verifyParams_def Let_def)

lemma verifyParams_frame:
  "expectations it' = expectations it \<Longrightarrow> index it' = index it \<Longrightarrow>
   verifyParams h fn ps it' = verifyParams h fn ps it"
  by (simp add: verifyParams_def)

lemma setOutputParams_frame:
  "expectations it' = expectations it \<Longrightarrow> index it' = index it \<Longrightarrow>
   setOutputParams lib ps it' h = setOutputParams lib ps it h"
  by (simp add: setOutputParams_def)

lemma query_excess:
  "index it \<ge> length (expectations it) \<Longrightarrow>
   query lib frame params (it, h) =
     Inr (it\<lparr>testErrors := testErrors it @ [UnexpectedCall (getFnName frame)]\<rparr>, h)"
  by (simp add: query_def Let_def)

lemma query_recognized:
  assumes "index it < length (expectations it)"
  shows "query lib frame params (it, h) =
     (case verifyParams h (getFnName frame) params it of
        Inl p \<Rightarrow> Inl p
      | Inr err \<Rightarrow>
          (case setOutputParams lib params it h of
             Inl p \<Rightarrow> Inl p
           | Inr (err', h') \<Rightarrow>
               Inr (it\<lparr>testErrors := testErrors it
                          @ name_errs (getFnName frame) (Function (expectations it ! index it))
                          @ errs_of err @ errs_of err',
                        Error := Error_exp (expectations it ! index it),
                        index := index it + 1\<rparr>, h')))"
proof -
  define fn where "fn = getFnName frame"
  define expected where "expected = Function (expectations it ! index it)"
  define it1 where "it1 = (if fn \<noteq> expected
       then it\<lparr>testErrors := testErrors it @ [UnexpectedCallExpected fn expected]\<rparr> else it)"
  have it1: "expectations it1 = expectations it" "index it1 = index it" "Error it1 = Error it"
    "testErrors it1 = testErrors it @ name_errs fn expected"
    by (simp_all add: it1_def name_errs_def)
  have q: "query lib frame params (it, h) =
    (case verifyParams h fn params it1 of
             Inl p \<Rightarrow> Inl p
           | Inr err \<Rightarrow>
               (case setOutputParams lib params (record_error err it1) h of
                    Inl p \<Rightarrow> Inl p
                  | Inr (err', h') \<Rightarrow>
                      (case setError (record_error err' (record_error err it1)) of
                           Inl p \<Rightarrow> Inl p
                         | Inr it4 \<Rightarrow> Inr (it4\<lparr>index := index it4 + 1\<rparr>, h'))))"
    using assms unfolding query_def it1_def fn_def expected_def
    by (simp add: Let_def split: sum.splits prod.splits)
  have v: "verifyParams h fn params it1 = verifyParams h fn params it"
    by (rule verifyParams_frame) (simp_all add: it1)
  have s: "setOutputParams lib params (record_error err it1) h = setOutputParams lib params it h" for err
    by (rule setOutputParams_frame) (simp_all add: it1 record_error_simps)
  have e: "setError (record_error err' (record_error err it1)) =
     Inr (it\<lparr>testErrors := testErrors it @ name_errs fn expected @ errs_of err @ errs_of err',
             Error := Error_exp (expectations it ! index it)\<rparr>)" for err err'
    using assms by (simp add: setError_def record_error_simps it1 DB.equality)
  show ?thesis
    unfolding q v s e fn_def [symmetric] expected_def [symmetric]
    by (simp split: sum.splits prod.splits)
qed

lemma run_excess:
  "length (expectations it) \<le> index it \<Longrightarrow>
   run lib cs (it, h) =
     Inr (it\<lparr>testErrors := testErrors it @ map (\<lambda>c. UnexpectedCall (call_name c)) cs\<rparr>, h)"
proof (induction cs arbitrary: it)
  case Nil
  then show ?case by simp
next
  case (Cons c cs)
  let ?it1 = "it\<lparr>testErrors := testErrors it @ [UnexpectedCall (call_name c)]\<rparr>"
  have "invoke lib c (it, h) = Inr (?it1, h)"
    using Cons.prems by (simp add: invoke_query query_excess getFnName_call)
  moreover have "length (expectations ?it1) \<le> index ?it1"
    using Cons.prems by simp
  ultimately show ?case
    using Cons.IH [of ?it1] by simp
qed

lemma setOutputParams_loop_in_range:
  "setOutputParams_loop lib outs ps i h \<noteq> Inl IndexOutOfRange"
  by (induction ps arbitrary: i h) (auto split: option.splits)

lemma setOutputParams_in_range:
  "index it < length (expectations it) \<Longrightarrow> setOutputParams lib ps it h \<noteq> Inl IndexOutOfRange"
  by (simp add: setOutputParams_def setOutputParams_loop_in_range)

lemma query_in_range: "query lib frame ps (it, h) \<noteq> Inl IndexOutOfRange"
proof (cases "index it < length (expectations it)")
  case True
  obtain r where r: "verifyParams h (getFnName frame) ps it = Inr r"
    using verifyParams_no_panic [OF True] by blast
  show ?thesis
    using setOutputParams_in_range [OF True, of lib ps h]
    by (auto simp: query_recognized [OF True] r split: sum.splits prod.splits)
next
  case False
  then show ?thesis by (simp add: query_excess)
qed

lemma run_in_range: "run lib cs s \<noteq> Inl IndexOutOfRange"
proof (induction cs arbitrary: s)
  case Nil
  then show ?case by simp
next
  case (Cons c cs)
  obtain it h where s: "s = (it, h)" by (cases s)
  show ?case
    using query_in_range [of lib "method_frame (call_name c)" "call_args c" it h] Cons.IH
    by (auto simp: s invoke_query split: sum.splits)
qed

lemma WithParams_append: "WithParams params e = e\<lparr>Params := Params e @ params\<rparr>"
  unfolding WithParams_def by (induction params arbitrary: e) simp_all

lemma WithOutput_append: "WithOutput h vs e = e\<lparr>Output := Output e @ map (Copy h) vs\<rparr>"
  unfolding WithOutput_def by (induction vs arbitrary: e) simp_all

lemma expect_chain_fields:
  "index (expect_chain h ch it) = index it"
  "testErrors (expect_chain h ch it) = testErrors it"
  "Error (expect_chain h ch it) = Error it"
  "expectations (expect_chain h ch it) =
     expectations it @ [foldl (builder h) \<lparr>Function = fst ch, Params = [], Output = [], Error_exp = None\<rparr> (snd ch)]"
  by (simp_all add: expect_chain_def ExpectCall_def Let_def)

lemma expect_all_fields:
  "index (expect_all h chs it) = index it"
  "testErrors (expect_all h chs it) = testErrors it"
  "Error (expect_all h chs it) = Error it"
  "expectations (expect_all h chs it) =
     expectations it @ map (\<lambda>ch. foldl (builder h) \<lparr>Function = fst ch, Params = [], Output = [], Error_exp = None\<rparr> (snd ch)) chs"
  unfolding expect_all_def
  by (induction chs arbitrary: it) (simp_all add: expect_chain_fields)

lemma query_index:
  "query lib frame ps (it, h) = Inr (it', h') \<Longrightarrow>
   index it' = (if index it < length (expectations it) then index it + 1 else index it) \<and>
   expectations it' = expectations it"
proof (cases "index it < length (expectations it)")
  case True
  assume "query lib frame ps (it, h) = Inr (it', h')"
  with True show ?thesis
    by (auto simp: query_recognized [OF True] split: sum.splits prod.splits)
next
  case False
  assume "query lib frame ps (it, h) = Inr (it', h')"
  with False show ?thesis
    by (auto simp: query_excess)
qed

lemma run_index:
  "run lib cs (it, h) = Inr (it', h') \<Longrightarrow> index it \<le> index it' \<and> expectations it' = expectations it"
proof (induction cs arbitrary: it h)
  case Nil
  then show ?case by simp
next
  case (Cons c cs)
  from Cons.prems obtain it1 h1 where
    1: "query lib (method_frame (call_name c)) (call_args c) (it, h) = Inr (it1, h1)"
    and 2: "run lib cs (it1, h1) = Inr (it', h')"
    by (auto simp: invoke_query split: sum.splits)
  from query_index [OF 1] Cons.IH [OF 2] show ?case
    by (auto split: if_splits)
qed

lemma setOutputParams_loop_returns:
  "NilIface \<notin> set ps \<Longrightarrow> \<exists>r. setOutputParams_loop lib outs ps i h = Inr r"
proof (induction ps arbitrary: i h)
  case Nil
  then show ?case by simp
next
  case (Cons p ps)
  then obtain k where "TypeOf p = Some k"
    by (cases p) auto
  with Cons show ?case by simp
qed

lemma query_returns:
  assumes "NilIface \<notin> set ps"
  shows "\<exists>it' h'. query lib frame ps (it, h) = Inr (it', h')"
proof (cases "index it < length (expectations it)")
  case True
  obtain r where r: "verifyParams h (getFnName frame) ps it = Inr r"
    using verifyParams_no_panic [OF True] by blast
  have "\<exists>r'. setOutputParams lib ps it h = Inr r'"
    using setOutputParams_loop_returns [OF assms, of lib "Output (expectations it ! index it)" 0 h] True
    by (simp add: setOutputParams_def)
  then obtain r' where r': "setOutputParams lib ps it h = Inr r'" ..
  show ?thesis
    by (simp add: query_recognized [OF True] r r' split: prod.splits)
next
  case False
  then show ?thesis by (simp add: query_excess)
qed

lemmas engine_defs =
  query_def getFnName_def method_frame_def verifyParams_def setOutputParams_def setError_def
  record_error_def deepCopy_def json_codec_def json_encode_def Let_def
  Open_def ExpectCall_def expect_all_def expect_chain_def WithParams_def WithOutput_def
  WithError_def

lemma verifyParams_loop_all:
  "i + length ps \<le> length exps \<Longrightarrow> \<forall>j<length ps. DeepEqual h (ps ! j) (exps ! (i + j)) \<Longrightarrow>
   verifyParams_loop h fn ps exps i = Inr None"
proof (induction ps arbitrary: i)
  case Nil
  then show ?case by simp
next
  case (Cons p ps)
  from Cons.prems(2) have "DeepEqual h p (exps ! i)"
    by (metis add.right_neutral length_greater_0_conv list.distinct(1) nth_Cons_0)
  moreover have "\<forall>j<length ps. DeepEqual h (ps ! j) (exps ! (Suc i + j))"
  proof (intro allI impI)
    fix j assume "j < length ps"
    then have "DeepEqual h ((p # ps) ! Suc j) (exps ! (i + Suc j))"
      using Cons.prems(2) by (metis Suc_less_eq length_Cons)
    then show "DeepEqual h (ps ! j) (exps ! (Suc i + j))" by simp
  qed
  ultimately show ?case
    using Cons.prems(1) Cons.IH [of "Suc i"] by simp
qed



lemma setOutputParams_loop_error:
  "setOutputParams_loop lib outs ps i h = Inr (Some e, h') \<Longrightarrow> \<exists>k. e = OutParametersMustBePointers k"
  by (induction ps arbitrary: i h) (auto split: if_splits option.splits)

lemma setOutputParams_error:
  "setOutputParams lib ps it h = Inr (Some e, h') \<Longrightarrow> \<exists>k. e = OutParametersMustBePointers k"
  by (auto simp: setOutputParams_def split: if_splits dest: setOutputParams_loop_error)

lemma filter_name_errs:
  "filter is_value_mismatch (name_errs fn expected) = []"
  "filter is_count_mismatch (name_errs fn expected) = []"
  by (simp_all add: name_errs_def)

lemma filter_output_errs:
  "setOutputParams lib ps it h = Inr (oerr, h') \<Longrightarrow>
   filter is_value_mismatch (errs_of oerr) = [] \<and> filter is_count_mismatch (errs_of oerr) = []"
  by (cases oerr) (auto simp: errs_of_def dest: setOutputParams_error)

lemma query_new_errors:
  assumes "index it < length (expectations it)"
    and "query lib frame ps (it, h) = Inr (it', h')"
  shows "\<exists>verr oerr. verifyParams h (getFnName frame) ps it = Inr verr \<and>
           setOutputParams lib ps it h = Inr (oerr, h') \<and>
           new_errors it it' =
             name_errs (getFnName frame) (Function (expectations it ! index it)) @ errs_of verr @ errs_of oerr \<and>
           index it' = index it + 1 \<and>
           Error it' = Error_exp (expectations it ! index it) \<and>
           expectations it' = expectations it"
  using assms(2) unfolding query_recognized [OF assms(1)]
  by (auto simp: new_errors_def split: sum.splits prod.splits)

section \<open>Verification\<close>

text \<open>
  Claim C2. \<^verbatim>\<open>ExpectationsMet\<close> returns the first of the collected errors whenever
  there is one, never a later one and never an aggregate; with no collected error it
  returns the "not all expectations met" error while the cursor is below the number
  of declared expectations, and nil otherwise.
\<close>

theorem ExpectationsMet_first_error:
  "(testErrors it \<noteq> [] \<longrightarrow> ExpectationsMet it = Some (hd (testErrors it))) \<and>
   (testErrors it = [] \<and> index it < length (expectations it) \<longrightarrow>
      ExpectationsMet it = Some NotAllExpectationsMet) \<and>
   (testErrors it = [] \<and> \<not> index it < length (expectations it) \<longrightarrow>
      ExpectationsMet it = None)"
  by (cases "testErrors it") (simp_all add: ExpectationsMet_def)

theorem ExpectationsMet_first_error_witness:
  "ExpectationsMet (Open\<lparr>testErrors := [TooManyParameters, UnexpectedCall ''Where'']\<rparr>)
     = Some TooManyParameters \<and>
   ExpectationsMet (ExpectCall ''Save'' Open) = Some NotAllExpectationsMet \<and>
   ExpectationsMet Open = None"
  using ExpectationsMet_first_error [of "Open\<lparr>testErrors := [TooManyParameters, UnexpectedCall ''Where'']\<rparr>"]
    ExpectationsMet_first_error [of "ExpectCall ''Save'' Open"]
    ExpectationsMet_first_error [of Open]
  by (simp add: Open_def ExpectCall_def)

section \<open>Calls beyond the declared expectations\<close>

text \<open>
  Claim C3. An intercepted operation invoked while the cursor is at or beyond the
  number of declared expectations appends exactly one "unexpected call" error naming
  the operation and changes nothing else, the cursor included. So a sequence of such
  calls appends one error per call, in order, and \<^verbatim>\<open>ExpectationsMet\<close> then returns the
  first error collected: the one of the first excess call when nothing had been
  collected before.
\<close>

theorem excess_calls_recorded:
  assumes "length (expectations it) \<le> index it"
  shows "invoke lib c (it, h) =
           Inr (it\<lparr>testErrors := testErrors it @ [UnexpectedCall (call_name c)]\<rparr>, h) \<and>
         run lib cs (it, h) =
           Inr (it\<lparr>testErrors := testErrors it @ map (\<lambda>c. UnexpectedCall (call_name c)) cs\<rparr>, h) \<and>
         (cs \<noteq> [] \<longrightarrow>
            ExpectationsMet (it\<lparr>testErrors := testErrors it @ map (\<lambda>c. UnexpectedCall (call_name c)) cs\<rparr>)
              = Some (hd (testErrors it @ map (\<lambda>c. UnexpectedCall (call_name c)) cs))) \<and>
         (cs \<noteq> [] \<and> testErrors it = [] \<longrightarrow>
            ExpectationsMet (it\<lparr>testErrors := testErrors it @ map (\<lambda>c. UnexpectedCall (call_name c)) cs\<rparr>)
              = Some (UnexpectedCall (call_name (hd cs))))"
proof -
  have "invoke lib c (it, h) =
          Inr (it\<lparr>testErrors := testErrors it @ [UnexpectedCall (call_name c)]\<rparr>, h)"
    using assms by (simp add: invoke_query query_excess getFnName_call)
  moreover have "cs \<noteq> [] \<Longrightarrow>
      ExpectationsMet (it\<lparr>testErrors := testErrors it @ map (\<lambda>c. UnexpectedCall (call_name c)) cs\<rparr>)
        = Some (hd (testErrors it @ map (\<lambda>c. UnexpectedCall (call_name c)) cs))"
    by (simp add: ExpectationsMet_def hd_conv_nth)
  moreover have "cs \<noteq> [] \<Longrightarrow> testErrors it = [] \<Longrightarrow>
      ExpectationsMet (it\<lparr>testErrors := testErrors it @ map (\<lambda>c. UnexpectedCall (call_name c)) cs\<rparr>)
        = Some (UnexpectedCall (call_name (hd cs)))"
    by (simp add: ExpectationsMet_def hd_conv_nth)
  ultimately show ?thesis
    using run_excess [OF assms] by blast
qed

theorem excess_calls_recorded_witness:
  "run json_codec [Where [Val (DInt 1)], Save (Val (DString ''x''))] (Open, \<lambda>_. DInt 0) =
     Inr (Open\<lparr>testErrors := [UnexpectedCall ''Where'', UnexpectedCall ''Save'']\<rparr>, \<lambda>_. DInt 0) \<and>
   ExpectationsMet (Open\<lparr>testErrors := [UnexpectedCall ''Where'', UnexpectedCall ''Save'']\<rparr>)
     = Some (UnexpectedCall ''Where'')"
proof -
  have h: "length (expectations Open) \<le> index Open"
    by (simp add: Open_def)
  show ?thesis
    using excess_calls_recorded [OF h, of json_codec "Where [Val (DInt 1)]" "\<lambda>_. DInt 0"
        "[Where [Val (DInt 1)], Save (Val (DString ''x''))]"]
    by (simp add: Open_def del: run.simps invoke.simps)
qed

section \<open>The cursor\<close>

text \<open>
  The cursor on the calls that return. It is 0 on a new handle and never decreases. A
  call made while the cursor is below the number of declared expectations, and that
  returns, moves it by exactly one, whatever the name, the parameters and the outputs
  are; a call made beyond them, and the declaration of expectations, leave it as it
  is. \<^verbatim>\<open>ExpectationsMet\<close> only reads the handle. A call returns whenever none of its
  arguments is a nil interface.
\<close>

theorem cursor_moves:
  "index Open = 0 \<and>
   index (ExpectCall name it) = index it \<and>
   index (expect_chain h0 ch it) = index it \<and>
   index (expect_all h0 chs it) = index it \<and>
   (\<forall>it' h'. invoke lib c (it, h) = Inr (it', h') \<longrightarrow>
      index it' = (if index it < length (expectations it) then index it + 1 else index it)) \<and>
   (NilIface \<notin> set (call_args c) \<longrightarrow> (\<exists>it' h'. invoke lib c (it, h) = Inr (it', h'))) \<and>
   (\<forall>it' h'. run lib cs (it, h) = Inr (it', h') \<longrightarrow> index it \<le> index it')"
proof -
  have "index Open = 0"
    by (simp add: Open_def)
  moreover have "index (ExpectCall name it) = index it"
    by (simp add: ExpectCall_def)
  moreover have "\<forall>it' h'. invoke lib c (it, h) = Inr (it', h') \<longrightarrow>
      index it' = (if index it < length (expectations it) then index it + 1 else index it)"
    using query_index [of lib "method_frame (call_name c)" "call_args c" it h]
    unfolding invoke_query by blast
  moreover have "NilIface \<notin> set (call_args c) \<longrightarrow> (\<exists>it' h'. invoke lib c (it, h) = Inr (it', h'))"
    using query_returns [of "call_args c" lib "method_frame (call_name c)" it h]
    unfolding invoke_query by blast
  moreover have "\<forall>it' h'. run lib cs (it, h) = Inr (it', h') \<longrightarrow> index it \<le> index it'"
    using run_index [of lib cs it h] by blast
  ultimately show ?thesis
    by (simp only: expect_chain_fields expect_all_fields simp_thms)
qed

theorem cursor_moves_witness:
  "index (expect_all (\<lambda>_. DInt 0) [(''Create'', [CallWithParams [Val (DInt 1)]])] Open) = 0 \<and>
   invoke json_codec (Save (Val (DInt 2)))
     (expect_all (\<lambda>_. DInt 0) [(''Create'', [CallWithParams [Val (DInt 1)]])] Open, \<lambda>_. DInt 0) =
     Inr (\<lparr>Error = None,
           expectations = [\<lparr>Function = ''Create'', Params = [Val (DInt 1)], Output = [], Error_exp = None\<rparr>],
           index = 1,
           testErrors = [UnexpectedCallExpected ''Save'' ''Create'',
                         UnexpectedParameter (Val (DInt 2)) ''Save'' (Val (DInt 1))]\<rparr>, \<lambda>_. DInt 0)"
proof -
  let ?it = "expect_all (\<lambda>_. DInt 0) [(''Create'', [CallWithParams [Val (DInt 1)]])] Open"
  let ?it' = "\<lparr>Error = None,
           expectations = [\<lparr>Function = ''Create'', Params = [Val (DInt 1)], Output = [], Error_exp = None\<rparr>],
           index = 1,
           testErrors = [UnexpectedCallExpected ''Save'' ''Create'',
                         UnexpectedParameter (Val (DInt 2)) ''Save'' (Val (DInt 1))]\<rparr>"
  have r: "invoke json_codec (Save (Val (DInt 2))) (?it, \<lambda>_. DInt 0) = Inr (?it', \<lambda>_. DInt 0)"
    by (simp add: engine_defs)
  note cm = cursor_moves [of "''x''" ?it "\<lambda>_. DInt 0" "(''x'', [])" "[]" json_codec
        "Save (Val (DInt 2))" "\<lambda>_. DInt 0" "[]"]
  from cm have "\<forall>it' h'. invoke json_codec (Save (Val (DInt 2))) (?it, \<lambda>_. DInt 0) = Inr (it', h') \<longrightarrow>
      index it' = (if index ?it < length (expectations ?it) then index ?it + 1 else index ?it)"
    by (elim conjE)
  with r have "index ?it' = (if index ?it < length (expectations ?it) then index ?it + 1 else index ?it)"
    by (elim allE impE)
  moreover have "index ?it = index Open"
    using cursor_moves [of "''x''" Open "\<lambda>_. DInt 0" "(''x'', [])"
        "[(''Create'', [CallWithParams [Val (DInt 1)]])]" json_codec
        "Save (Val (DInt 2))" "\<lambda>_. DInt 0" "[]"]
    by (elim conjE)
  ultimately show ?thesis
    using r by (simp add: Open_def)
qed



text \<open>
  Claim C6 at a recognized call that panics. The claim has the cursor increase by
  exactly one on every call made while it is below the number of declared
  expectations, whatever the mismatches. With one expectation declared for \<^verbatim>\<open>Scan\<close>,
  with an output, the cursor is 0 and below 1, so \<^verbatim>\<open>Scan(nil)\<close> is such a call; its
  parameters are accepted, then \<^verbatim>\<open>setOutputParams\<close> panics on the nil argument, and
  \<^verbatim>\<open>query\<close> ends there, before the statement that increments the cursor.
\<close>

theorem recognized_call_panics_before_increment:
  "index (expect_all mem0 [(''Scan'', [CallWithOutput [Val (DInt 7)]])] Open) = 0 \<and>
   length (expectations (expect_all mem0 [(''Scan'', [CallWithOutput [Val (DInt 7)]])] Open)) = 1 \<and>
   verifyParams mem0 ''Scan'' [NilIface]
     (expect_all mem0 [(''Scan'', [CallWithOutput [Val (DInt 7)]])] Open) = Inr None \<and>
   setOutputParams json_codec [NilIface]
     (expect_all mem0 [(''Scan'', [CallWithOutput [Val (DInt 7)]])] Open) mem0 = Inl NilDereference \<and>
   invoke json_codec (Scan NilIface)
     (expect_all mem0 [(''Scan'', [CallWithOutput [Val (DInt 7)]])] Open, mem0) = Inl NilDereference"
  by (simp add: engine_defs)

section \<open>Access to the expectation list\<close>

text \<open>
  Claim C10. \<^verbatim>\<open>verifyParams\<close>, \<^verbatim>\<open>setOutputParams\<close> and \<^verbatim>\<open>setError\<close> index the
  expectation list at the cursor, which is in range exactly when the cursor is below
  the list's length; \<^verbatim>\<open>query\<close> returns before calling them otherwise. So no call of
  an intercepted operation, and no sequence of them, indexes the list out of range.
\<close>

theorem expectation_access_in_range:
  "invoke lib c (it, h) \<noteq> Inl IndexOutOfRange \<and>
   run lib cs (it, h) \<noteq> Inl IndexOutOfRange \<and>
   (index it < length (expectations it) \<longrightarrow>
      verifyParams h fn ps it \<noteq> Inl IndexOutOfRange \<and>
      setOutputParams lib ps it h \<noteq> Inl IndexOutOfRange \<and>
      setError it \<noteq> Inl IndexOutOfRange) \<and>
   (length (expectations it) \<le> index it \<longrightarrow>
      verifyParams h fn ps it = Inl IndexOutOfRange \<and>
      setOutputParams lib ps it h = Inl IndexOutOfRange \<and>
      setError it = Inl IndexOutOfRange \<and>
      query lib frame ps (it, h) =
        Inr (it\<lparr>testErrors := testErrors it @ [UnexpectedCall (getFnName frame)]\<rparr>, h))"
proof -
  have "verifyParams h fn ps it \<noteq> Inl IndexOutOfRange" if "index it < length (expectations it)"
    using verifyParams_no_panic [OF that, of h fn ps] by auto
  moreover have "setError it \<noteq> Inl IndexOutOfRange" if "index it < length (expectations it)"
    using that by (simp add: setError_def)
  moreover have "verifyParams h fn ps it = Inl IndexOutOfRange \<and>
      setOutputParams lib ps it h = Inl IndexOutOfRange \<and> setError it = Inl IndexOutOfRange"
    if "length (expectations it) \<le> index it"
    using that by (simp add: verifyParams_def setOutputParams_def setError_def)
  ultimately show ?thesis
    using query_in_range [of lib "method_frame (call_name c)" "call_args c" it h]
      run_in_range [of lib cs "(it, h)"] setOutputParams_in_range [of it lib ps h]
      query_excess [of it lib frame ps h]
    by (simp add: invoke_query)
qed

theorem expectation_access_in_range_witness:
  "invoke json_codec (Save (Val (DInt 1))) (ExpectCall ''Save'' Open, \<lambda>_. DInt 0) \<noteq> Inl IndexOutOfRange \<and>
   verifyParams (\<lambda>_. DInt 0) ''Save'' [Val (DInt 1)] (ExpectCall ''Save'' Open) \<noteq> Inl IndexOutOfRange \<and>
   setOutputParams json_codec [Val (DInt 1)] (ExpectCall ''Save'' Open) (\<lambda>_. DInt 0) \<noteq> Inl IndexOutOfRange \<and>
   setError (ExpectCall ''Save'' Open) \<noteq> Inl IndexOutOfRange \<and>
   verifyParams (\<lambda>_. DInt 0) ''Save'' [Val (DInt 1)] Open = Inl IndexOutOfRange \<and>
   setOutputParams json_codec [Val (DInt 1)] Open (\<lambda>_. DInt 0) = Inl IndexOutOfRange \<and>
   setError Open = Inl IndexOutOfRange"
proof -
  have 1: "index (ExpectCall ''Save'' Open) < length (expectations (ExpectCall ''Save'' Open))"
    by (simp add: Open_def ExpectCall_def)
  have 2: "length (expectations Open) \<le> index Open"
    by (simp add: Open_def)
  show ?thesis
    using 1 2
      expectation_access_in_range [of json_codec "Save (Val (DInt 1))" "ExpectCall ''Save'' Open"
        "\<lambda>_. DInt 0" "[]" "''Save''" "[Val (DInt 1)]"]
      expectation_access_in_range [of json_codec "Save (Val (DInt 1))" Open
        "\<lambda>_. DInt 0" "[]" "''Save''" "[Val (DInt 1)]"]
    by blast
qed

section \<open>Parameter comparison\<close>



section \<open>Parameter count\<close>

text \<open>
  Claim C4, as the code has it. If the next expectation declares at least one
  parameter and the operation is invoked with a different number of them, exactly one
  count-mismatch error is recorded, "not enough parameters" when fewer are observed
  and "too many parameters" when more are, the per-position comparison is skipped and
  the cursor advances by exactly one. The output projection is not skipped: it runs
  on the observed parameters as for any other call, and its writes and its error, if
  any, stand.
\<close>

theorem count_mismatch_recorded:
  assumes "index it < length (expectations it)"
    and "Params (expectations it ! index it) = exps"
    and "exps \<noteq> []"
    and "length ps \<noteq> length exps"
  shows "verifyParams h fn ps it =
           Inr (Some (if length ps < length exps then NotEnoughParameters else TooManyParameters)) \<and>
         query lib frame ps (it, h) =
           (case setOutputParams lib ps it h of
              Inl p \<Rightarrow> Inl p
            | Inr (oerr, h') \<Rightarrow>
                Inr (it\<lparr>testErrors := testErrors it
                           @ name_errs (getFnName frame) (Function (expectations it ! index it))
                           @ [if length ps < length exps then NotEnoughParameters else TooManyParameters]
                           @ errs_of oerr,
                         Error := Error_exp (expectations it ! index it),
                         index := index it + 1\<rparr>, h')) \<and>
         (\<forall>it' h'. query lib frame ps (it, h) = Inr (it', h') \<longrightarrow>
            index it' = index it + 1 \<and>
            filter is_count_mismatch (new_errors it it') =
              [if length ps < length exps then NotEnoughParameters else TooManyParameters] \<and>
            filter is_value_mismatch (new_errors it it') = [])"
proof -
  let ?e = "if length ps < length exps then NotEnoughParameters else TooManyParameters"
  have v: "verifyParams h fn ps it = Inr (Some ?e)" for fn
    using assms by (auto simp: verifyParams_def)
  have q: "query lib frame ps (it, h) =
           (case setOutputParams lib ps it h of
              Inl p \<Rightarrow> Inl p
            | Inr (oerr, h') \<Rightarrow>
                Inr (it\<lparr>testErrors := testErrors it
                           @ name_errs (getFnName frame) (Function (expectations it ! index it))
                           @ [?e] @ errs_of oerr,
                         Error := Error_exp (expectations it ! index it),
                         index := index it + 1\<rparr>, h'))"
    unfolding query_recognized [OF assms(1)] v
    by (cases "setOutputParams lib ps it h") (auto simp: errs_of_def)
  have n: "index it' = index it + 1 \<and>
            filter is_count_mismatch (new_errors it it') = [?e] \<and>
            filter is_value_mismatch (new_errors it it') = []"
    if "query lib frame ps (it, h) = Inr (it', h')" for it' h'
  proof -
    from query_new_errors [OF assms(1) that] obtain verr oerr where
      1: "verifyParams h (getFnName frame) ps it = Inr verr"
      and 2: "setOutputParams lib ps it h = Inr (oerr, h')"
      and 3: "new_errors it it' =
             name_errs (getFnName frame) (Function (expectations it ! index it)) @ errs_of verr @ errs_of oerr"
      and 4: "index it' = index it + 1"
      by blast
    from 1 have 5: "verr = Some ?e" by (simp add: v)
    show ?thesis
      using filter_output_errs [OF 2] 4
      by (simp add: 3 5 filter_name_errs errs_of_def)
  qed
  show ?thesis
    using v q n by blast
qed

theorem count_mismatch_recorded_witness:
  "verifyParams mem0 ''First'' [Ptr 4, Ptr 5]
     (expect_all mem0 [(''First'', [CallWithParams [Val (DInt 1)], CallWithOutput [Val (DInt 7)]])] Open)
     = Inr (Some TooManyParameters) \<and>
   verifyParams mem0 ''First'' []
     (expect_all mem0 [(''First'', [CallWithParams [Val (DInt 1)], CallWithOutput [Val (DInt 7)]])] Open)
     = Inr (Some NotEnoughParameters)"
proof -
  let ?it = "expect_all mem0 [(''First'', [CallWithParams [Val (DInt 1)], CallWithOutput [Val (DInt 7)]])] Open"
  have 1: "index ?it < length (expectations ?it)"
    and 2: "Params (expectations ?it ! index ?it) = [Val (DInt 1)]"
    and 3: "[Val (DInt 1)] \<noteq> []"
    and 4: "length [Ptr 4, Ptr 5] \<noteq> length [Val (DInt 1)]"
    and 5: "length ([] :: gval list) \<noteq> length [Val (DInt 1)]"
    by (simp_all add: engine_defs)
  show ?thesis
    using count_mismatch_recorded [OF 1 2 3 4, of mem0 "''First''" json_codec "[]"]
      count_mismatch_recorded [OF 1 2 3 5, of mem0 "''First''" json_codec "[]"]
    by simp
qed

text \<open>
  The claim as stated has the output projection aborted by a count mismatch. With one
  declared parameter, one declared output and two pointer arguments, the call records
  "too many parameters" and still writes the declared output 7 into the first
  argument's referent, the integer at address 4.
\<close>

theorem count_mismatch_output_counterexample:
  "observe [4, 5]
     (run json_codec [First [Ptr 4, Ptr 5]]
        (expect_all mem0 [(''First'', [CallWithParams [Val (DInt 1)], CallWithOutput [Val (DInt 7)]])] Open,
         mem0))
   = Inr (\<lparr>Error = None,
            expectations = [\<lparr>Function = ''First'', Params = [Val (DInt 1)],
                             Output = [SVal (DInt 7)], Error_exp = None\<rparr>],
            index = 1,
            testErrors = [TooManyParameters]\<rparr>, [DInt 7, DInt 0])"
  by (simp add: engine_defs observe_def mem0_def)

section \<open>Arguments that cannot receive an output\<close>

text \<open>
  An argument of a kind other than pointer, at a position with a declared output, ends
  the projection with the "out parameters must be pointers" error, after the outputs
  of the positions before it have been copied.
\<close>

lemma setOutputParams_loop_non_pointer:
  "k < length ps \<Longrightarrow> i + k < length outs \<Longrightarrow> \<forall>j<k. TypeOf (ps ! j) = Some Kind_Ptr \<Longrightarrow>
   TypeOf (ps ! k) = Some kd \<Longrightarrow> kd \<noteq> Kind_Ptr \<Longrightarrow>
   \<exists>h'. setOutputParams_loop lib outs ps i h = Inr (Some (OutParametersMustBePointers kd), h')"
proof (induction ps arbitrary: i k h)
  case Nil
  then show ?case by simp
next
  case (Cons p ps)
  show ?case
  proof (cases k)
    case 0
    with Cons.prems show ?thesis by simp
  next
    case (Suc k')
    have p: "TypeOf p = Some Kind_Ptr"
      using Cons.prems(3) Suc by (metis nth_Cons_0 zero_less_Suc)
    have "\<forall>j<k'. TypeOf (ps ! j) = Some Kind_Ptr"
    proof (intro allI impI)
      fix j assume "j < k'"
      then have "TypeOf ((p # ps) ! Suc j) = Some Kind_Ptr"
        using Cons.prems(3) Suc by (metis Suc_less_eq)
      then show "TypeOf (ps ! j) = Some Kind_Ptr" by simp
    qed
    then show ?thesis
      using Cons.prems Suc p
        Cons.IH [of k' "Suc i" "fst (deepCopy lib (outs ! i) p h)"]
      by simp
  qed
qed

text \<open>
  Claim C8 at a nil argument. \<^verbatim>\<open>reflect.TypeOf\<close> of a nil interface is the nil
  \<^verbatim>\<open>Type\<close>, and \<^verbatim>\<open>setOutputParams\<close> calls \<^verbatim>\<open>Kind()\<close> on it: with an output declared
  for \<^verbatim>\<open>Scan\<close>, the call \<^verbatim>\<open>Scan(nil)\<close> panics instead of recording the error.
\<close>

theorem nil_argument_panics:
  "run json_codec [Scan NilIface]
     (expect_all mem0 [(''Scan'', [CallWithOutput [Val (DInt 7)]])] Open, mem0)
   = Inl NilDereference"
  by (simp add: engine_defs)

section \<open>Failures of the serialization\<close>

text \<open>
  Claim C9 at a failing round trip. \<^verbatim>\<open>deepCopy\<close> returns the error of the encoding
  or of the decoding, and \<^verbatim>\<open>setOutputParams\<close> calls it as a statement: the error is
  dropped. With the string \<^verbatim>\<open>"abc"\<close> declared as the output of \<^verbatim>\<open>First\<close> and a pointer
  to an integer passed to it, the decoding fails, the call leaves the integer as it
  was and collects no error, and \<^verbatim>\<open>ExpectationsMet\<close> returns nil. The same happens
  with a channel as the declared output, which cannot be encoded.
\<close>

theorem deepCopy_error_dropped:
  "deepCopy json_codec (SVal (DString ''abc'')) (Ptr 4) mem0
     = (mem0, Some (OtherError ''json: cannot unmarshal into Go value'')) \<and>
   observe [4]
     (run json_codec [First [Ptr 4]]
        (expect_all mem0 [(''First'', [CallWithOutput [Val (DString ''abc'')]])] Open, mem0))
     = Inr (\<lparr>Error = None,
              expectations = [\<lparr>Function = ''First'', Params = [], Output = [SVal (DString ''abc'')],
                               Error_exp = None\<rparr>],
              index = 1, testErrors = []\<rparr>, [DInt 0]) \<and>
   ExpectationsMet \<lparr>Error = None,
              expectations = [\<lparr>Function = ''First'', Params = [], Output = [SVal (DString ''abc'')],
                               Error_exp = None\<rparr>],
              index = 1, testErrors = []\<rparr> = None \<and>
   deepCopy json_codec (SVal (DChan 0)) (Ptr 4) mem0
     = (mem0, Some (OtherError ''json: unsupported type'')) \<and>
   observe [4]
     (run json_codec [First [Ptr 4]]
        (expect_all mem0 [(''First'', [CallWithOutput [Val (DChan 0)]])] Open, mem0))
     = Inr (\<lparr>Error = None,
              expectations = [\<lparr>Function = ''First'', Params = [], Output = [SVal (DChan 0)],
                               Error_exp = None\<rparr>],
              index = 1, testErrors = []\<rparr>, [DInt 0])"
  by (simp add: engine_defs observe_def mem0_def ExpectationsMet_def)

section \<open>Output projection\<close>

lemma setOutputParams_loop_distinct:
  "take (length outs - i) ps = map Ptr as \<Longrightarrow> distinct as \<Longrightarrow>
   \<forall>j<length as. representable lib (outs ! (i + j)) (as ! j) (T (as ! j)) \<Longrightarrow>
   \<forall>j<length as. type_of (h1 (as ! j)) = T (as ! j) \<Longrightarrow>
   \<exists>h'. setOutputParams_loop lib outs ps i h1 = Inr (None, h') \<and>
        (\<forall>j<length as. stored_data (outs ! (i + j)) = Some (h' (as ! j))) \<and>
        (\<forall>a. a \<notin> set as \<longrightarrow> h' a = h1 a)"
proof (induction ps arbitrary: i h1 as)
  case Nil
  then show ?case by simp
next
  case (Cons p ps)
  show ?case
  proof (cases "i \<ge> length outs")
    case True
    with Cons.prems(1) have "as = []" by simp
    with True show ?thesis by simp
  next
    case False
    then obtain m where m: "length outs - i = Suc m"
      by (metis Suc_diff_Suc not_le)
    then have m': "length outs - Suc i = m" by simp
    from Cons.prems(1) m obtain a as' where as: "as = a # as'" and p: "p = Ptr a"
      and rest: "take (length outs - Suc i) ps = map Ptr as'"
      by (cases as) (auto simp: m')
    from Cons.prems(2) as have na: "a \<notin> set as'" and dis: "distinct as'"
      by simp_all
    from Cons.prems(3) as have "representable lib (outs ! i) a (T a)"
      by (metis add.right_neutral length_greater_0_conv list.distinct(1) nth_Cons_0)
    then obtain enc v where enc: "Marshal lib (outs ! i) = Inr enc"
      and v: "stored_data (outs ! i) = Some v"
      and un: "\<And>h2. type_of (h2 a) = T a \<Longrightarrow> Unmarshal lib enc (Ptr a) h2 = (h2(a := v), None)"
      unfolding representable_def by blast
    from Cons.prems(4) as have "type_of (h1 a) = T a"
      by (metis length_greater_0_conv list.distinct(1) nth_Cons_0)
    then have dc: "deepCopy lib (outs ! i) p h1 = (h1(a := v), None)"
      by (simp add: deepCopy_def enc un p)
    have r3: "\<forall>j<length as'. representable lib (outs ! (Suc i + j)) (as' ! j) (T (as' ! j))"
    proof (intro allI impI)
      fix j assume "j < length as'"
      then have "representable lib (outs ! (i + Suc j)) (as ! Suc j) (T (as ! Suc j))"
        using Cons.prems(3) as by (metis Suc_less_eq length_Cons)
      then show "representable lib (outs ! (Suc i + j)) (as' ! j) (T (as' ! j))"
        by (simp add: as)
    qed
    have r4: "\<forall>j<length as'. type_of ((h1(a := v)) (as' ! j)) = T (as' ! j)"
    proof (intro allI impI)
      fix j assume j: "j < length as'"
      then have "type_of (h1 (as ! Suc j)) = T (as ! Suc j)"
        using Cons.prems(4) as by (metis Suc_less_eq length_Cons)
      moreover have "as' ! j \<noteq> a"
        using j na by (metis nth_mem)
      ultimately show "type_of ((h1(a := v)) (as' ! j)) = T (as' ! j)"
        by (simp add: as)
    qed
    from Cons.IH [OF rest dis r3 r4] obtain h' where
      l: "setOutputParams_loop lib outs ps (Suc i) (h1(a := v)) = Inr (None, h')"
      and s: "\<forall>j<length as'. stored_data (outs ! (Suc i + j)) = Some (h' (as' ! j))"
      and fr: "\<forall>b. b \<notin> set as' \<longrightarrow> h' b = (h1(a := v)) b"
      by blast
    have l': "setOutputParams_loop lib outs (p # ps) i h1 = Inr (None, h')"
      using False l dc unfolding p by simp
    have s': "\<forall>j<length as. stored_data (outs ! (i + j)) = Some (h' (as ! j))"
    proof (intro allI impI)
      fix j assume j: "j < length as"
      show "stored_data (outs ! (i + j)) = Some (h' (as ! j))"
      proof (cases j)
        case 0
        with fr na v show ?thesis by (simp add: as)
      next
        case (Suc j')
        with j s show ?thesis by (simp add: as)
      qed
    qed
    have fr': "\<forall>b. b \<notin> set as \<longrightarrow> h' b = h1 b"
      using fr by (simp add: as)
    from l' s' fr' show ?thesis by blast
  qed
qed

lemma query_projects_outputs:
  assumes "index it < length (expectations it)"
    and "Output (expectations it ! index it) = outs"
    and "take (length outs) ps = map Ptr as"
    and "distinct as"
    and "\<forall>i<length as. representable lib (outs ! i) (as ! i) (T (as ! i))"
    and "\<forall>i<length as. type_of (h (as ! i)) = T (as ! i)"
  shows "\<exists>it' h'. query lib frame ps (it, h) = Inr (it', h') \<and>
           (\<forall>i<length as. stored_data (outs ! i) = Some (h' (as ! i))) \<and>
           (\<forall>a. a \<notin> set as \<longrightarrow> h' a = h a)"
proof -
  obtain verr where v: "verifyParams h (getFnName frame) ps it = Inr verr"
    using verifyParams_no_panic [OF assms(1)] by blast
  have "\<exists>h'. setOutputParams_loop lib outs ps 0 h = Inr (None, h') \<and>
        (\<forall>j<length as. stored_data (outs ! (0 + j)) = Some (h' (as ! j))) \<and>
        (\<forall>a. a \<notin> set as \<longrightarrow> h' a = h a)"
    using assms(3,4,5,6) setOutputParams_loop_distinct [of outs 0 ps as lib T h] by simp
  then obtain h' where l: "setOutputParams_loop lib outs ps 0 h = Inr (None, h')"
    and s: "\<forall>j<length as. stored_data (outs ! j) = Some (h' (as ! j))"
    and fr: "\<forall>a. a \<notin> set as \<longrightarrow> h' a = h a"
    by auto
  have "\<exists>h'. setOutputParams lib ps it h = Inr (None, h') \<and>
        (\<forall>j<length as. stored_data (outs ! j) = Some (h' (as ! j))) \<and>
        (\<forall>a. a \<notin> set as \<longrightarrow> h' a = h a)"
  proof (cases "outs = []")
    case True
    with assms(3) have "as = []" by simp
    with True assms(1,2) show ?thesis
      by (simp add: setOutputParams_def)
  next
    case False
    with assms(1,2) l s fr show ?thesis
      by (simp add: setOutputParams_def)
  qed
  then obtain h'' where o: "setOutputParams lib ps it h = Inr (None, h'')"
    and s'': "\<forall>j<length as. stored_data (outs ! j) = Some (h'' (as ! j))"
    and fr'': "\<forall>a. a \<notin> set as \<longrightarrow> h'' a = h a"
    by blast
  show ?thesis
    unfolding query_recognized [OF assms(1)] v o
    using s'' fr'' by simp
qed

text \<open>
  Claim C7, as the code has it. Let the next expectation declare outputs, and let the
  operation be invoked with non-nil pointers to pairwise distinct destinations at the
  positions that have a declared output. If each of these outputs is representable in
  the round trip into a destination of its destination's type, then the call returns
  and each destination holds the data of its declared output afterwards, whatever the
  call records about the name and the parameters; the memory is unchanged everywhere
  else. The result does not depend on what the destinations held before: from any
  memory that gives them the same types, the call leaves the same data in them.
\<close>

theorem outputs_projected:
  assumes "index it < length (expectations it)"
    and "Output (expectations it ! index it) = outs"
    and "take (length outs) ps = map Ptr as"
    and "distinct as"
    and "\<forall>i<length as. representable lib (outs ! i) (as ! i) (type_of (h (as ! i)))"
  shows "\<exists>it' h'. query lib frame ps (it, h) = Inr (it', h') \<and>
           (\<forall>i<length as. stored_data (outs ! i) = Some (h' (as ! i))) \<and>
           (\<forall>a. a \<notin> set as \<longrightarrow> h' a = h a) \<and>
           (\<forall>g. (\<forall>i<length as. type_of (g (as ! i)) = type_of (h (as ! i))) \<longrightarrow>
              (\<exists>it'' g'. query lib frame ps (it, g) = Inr (it'', g') \<and>
                 (\<forall>i<length as. g' (as ! i) = h' (as ! i))))"
proof -
  let ?T = "\<lambda>a. type_of (h a)"
  from query_projects_outputs [OF assms(1,2,3,4), of lib ?T h frame] assms(5)
  obtain it' h' where q: "query lib frame ps (it, h) = Inr (it', h')"
    and s: "\<forall>i<length as. stored_data (outs ! i) = Some (h' (as ! i))"
    and fr: "\<forall>a. a \<notin> set as \<longrightarrow> h' a = h a"
    by auto
  have "\<exists>it'' g'. query lib frame ps (it, g) = Inr (it'', g') \<and>
                 (\<forall>i<length as. g' (as ! i) = h' (as ! i))"
    if g: "\<forall>i<length as. type_of (g (as ! i)) = type_of (h (as ! i))" for g
  proof -
    from query_projects_outputs [OF assms(1,2,3,4), of lib ?T g frame] assms(5) g
    obtain it'' g' where q': "query lib frame ps (it, g) = Inr (it'', g')"
      and s': "\<forall>i<length as. stored_data (outs ! i) = Some (g' (as ! i))"
      by auto
    have "\<forall>i<length as. g' (as ! i) = h' (as ! i)"
    proof (intro allI impI)
      fix i assume "i < length as"
      with s s' have "Some (g' (as ! i)) = Some (h' (as ! i))" by metis
      then show "g' (as ! i) = h' (as ! i)" by simp
    qed
    with q' show ?thesis by blast
  qed
  with q s fr show ?thesis by blast
qed

theorem outputs_projected_witness:
  "\<exists>it' h' it'' g'.
     query json_codec (method_frame ''Find'') [Ptr 1, Ptr 4]
       (expect_all mem0 [(''Find'', [CallWithOutput [Ptr 3, Val (DInt 7)]])] Open, mem0) = Inr (it', h') \<and>
     h' 1 = user ''Bo'' \<and> h' 4 = DInt 7 \<and> h' 2 = user ''Al'' \<and>
     query json_codec (method_frame ''Find'') [Ptr 1, Ptr 4]
       (expect_all mem0 [(''Find'', [CallWithOutput [Ptr 3, Val (DInt 7)]])] Open,
        mem0(1 := user ''Cy'', 4 := DInt 99)) = Inr (it'', g') \<and>
     g' 1 = user ''Bo'' \<and> g' 4 = DInt 7"
proof -
  let ?it = "expect_all mem0 [(''Find'', [CallWithOutput [Ptr 3, Val (DInt 7)]])] Open"
  let ?outs = "[SRef (user ''Bo''), SVal (DInt 7)]"
  let ?g = "mem0(1 := user ''Cy'', 4 := DInt 99)"
  have 1: "index ?it < length (expectations ?it)"
    and 2: "Output (expectations ?it ! index ?it) = ?outs"
    by (simp_all add: engine_defs mem0_def)
  have 3: "take (length ?outs) [Ptr 1, Ptr 4] = map Ptr [1, 4]"
    and 4: "distinct [1, 4 :: nat]"
    by simp_all
  have 5: "\<forall>i<length [1, 4 :: nat].
      representable json_codec (?outs ! i) ([1, 4] ! i) (type_of (mem0 ([1, 4] ! i)))"
    by (simp add: All_less_Suc representable_def json_codec_def json_encode_def mem0_def user_def)
  have 6: "\<forall>i<length [1, 4 :: nat]. type_of (?g ([1, 4] ! i)) = type_of (mem0 ([1, 4] ! i))"
    by (simp add: All_less_Suc mem0_def user_def)
  from outputs_projected [OF 1 2 3 4 5, of "method_frame ''Find''"]
  obtain it' h' where r: "query json_codec (method_frame ''Find'') [Ptr 1, Ptr 4] (?it, mem0) = Inr (it', h')"
    and s: "\<forall>i<length [1, 4 :: nat]. stored_data (?outs ! i) = Some (h' ([1, 4] ! i))"
    and fr: "\<forall>a. a \<notin> set [1, 4 :: nat] \<longrightarrow> h' a = mem0 a"
    and ind: "\<forall>g. (\<forall>i<length [1, 4 :: nat]. type_of (g ([1, 4] ! i)) = type_of (mem0 ([1, 4] ! i))) \<longrightarrow>
              (\<exists>it'' g'. query json_codec (method_frame ''Find'') [Ptr 1, Ptr 4] (?it, g) = Inr (it'', g') \<and>
                 (\<forall>i<length [1, 4 :: nat]. g' ([1, 4] ! i) = h' ([1, 4] ! i)))"
    by blast
  from s have a: "h' 1 = user ''Bo'' \<and> h' 4 = DInt 7"
    by (simp add: All_less_Suc)
  from fr have b: "h' 2 = user ''Al''"
    by (simp add: mem0_def)
  from ind 6 obtain it'' g' where
    r': "query json_codec (method_frame ''Find'') [Ptr 1, Ptr 4] (?it, ?g) = Inr (it'', g')"
    and e: "\<forall>i<length [1, 4 :: nat]. g' ([1, 4] ! i) = h' ([1, 4] ! i)"
    by blast
  from e a have c: "g' 1 = user ''Bo'' \<and> g' 4 = DInt 7"
    by (simp add: All_less_Suc)
  from r a b r' c show ?thesis by blast
qed

text \<open>
  The claim as stated has every pointer argument hold its own declared output after
  the call. When two arguments are the same pointer the outputs are written one after
  the other into the one destination: with the outputs 1 and 2 declared and
  \<^verbatim>\<open>Find(&x, &x)\<close> called, the referent of the first argument is 2 afterwards.
\<close>

theorem aliased_outputs_counterexample:
  "observe [4]
     (run json_codec [Find [Ptr 4, Ptr 4]]
        (expect_all mem0 [(''Find'', [CallWithOutput [Val (DInt 1), Val (DInt 2)]])] Open, mem0))
   = Inr (\<lparr>Error = None,
            expectations = [\<lparr>Function = ''Find'', Params = [],
                             Output = [SVal (DInt 1), SVal (DInt 2)], Error_exp = None\<rparr>],
            index = 1, testErrors = []\<rparr>, [DInt 2])"
  by (simp add: engine_defs observe_def mem0_def)

section \<open>A run that matches the declared expectations\<close>

lemma session_run: "session lib (map Invoke cs) s = run lib cs s"
  by (induction cs arbitrary: s) (simp_all split: sum.splits)

lemma projected_Nil [simp]: "projected lib [] ps h = h" "projected lib outs [] h = h"
  by (simp_all add: projected_def)

lemma projected_Cons:
  "projected lib (out # outs) (p # ps) h = projected lib outs ps (fst (deepCopy lib out p h))"
  by (simp add: projected_def)

lemma setOutputParams_loop_pointers:
  "list_all (\<lambda>p. TypeOf p = Some Kind_Ptr) (take (length outs - i) ps) \<Longrightarrow>
   setOutputParams_loop lib outs ps i h = Inr (None, projected lib (drop i outs) ps h)"
proof (induction ps arbitrary: i h)
  case Nil
  then show ?case by simp
next
  case (Cons p ps)
  show ?case
  proof (cases "i \<ge> length outs")
    case True
    then show ?thesis by simp
  next
    case False
    then obtain m where m: "length outs - i = Suc m"
      by (metis Suc_diff_Suc not_le)
    then have m': "length outs - Suc i = m" by simp
    from Cons.prems m have p: "TypeOf p = Some Kind_Ptr"
      and rest: "list_all (\<lambda>p. TypeOf p = Some Kind_Ptr) (take (length outs - Suc i) ps)"
      by (simp_all add: m')
    have d: "drop i outs = outs ! i # drop (Suc i) outs"
      using False by (simp add: Cons_nth_drop_Suc)
    show ?thesis
      using False p Cons.IH [OF rest, of "fst (deepCopy lib (outs ! i) p h)"]
      by (simp add: d projected_Cons)
  qed
qed

lemma setOutputParams_pointers:
  assumes "index it < length (expectations it)"
    and "list_all (\<lambda>p. TypeOf p = Some Kind_Ptr) (take (length (Output (expectations it ! index it))) ps)"
  shows "setOutputParams lib ps it h = Inr (None, projected lib (Output (expectations it ! index it)) ps h)"
  using assms setOutputParams_loop_pointers [of "Output (expectations it ! index it)" 0 ps lib h]
  by (simp add: setOutputParams_def)

lemma verifyParams_equal:
  assumes "index it < length (expectations it)"
    and "Params (expectations it ! index it) = [] \<or>
         list_all2 (DeepEqual h) ps (Params (expectations it ! index it))"
  shows "verifyParams h fn ps it = Inr None"
proof (cases "Params (expectations it ! index it) = []")
  case True
  with assms(1) show ?thesis
    by (simp add: verifyParams_def Let_def)
next
  case False
  let ?exps = "Params (expectations it ! index it)"
  from False assms(2) have eq: "list_all2 (DeepEqual h) ps ?exps" by simp
  then have len: "length ps = length ?exps"
    by (rule list_all2_lengthD)
  have "\<forall>j<length ps. DeepEqual h (ps ! j) (?exps ! (0 + j))"
    using eq by (simp add: list_all2_nthD)
  then have "verifyParams_loop h fn ps ?exps 0 = Inr None"
    using verifyParams_loop_all [of 0 ps ?exps h fn] len by simp
  then show ?thesis
    using assms(1) len by (simp add: verifyParams_def Let_def)
qed

lemma invoke_matching:
  assumes "index it < length (expectations it)"
    and "matches h (expectations it ! index it) c"
  shows "invoke lib c (it, h) =
     Inr (it\<lparr>Error := Error_exp (expectations it ! index it), index := index it + 1\<rparr>,
          projected lib (Output (expectations it ! index it)) (call_args c) h)"
proof -
  let ?e = "expectations it ! index it"
  from assms(2) have n: "call_name c = Function ?e"
    and p: "Params ?e = [] \<or> list_all2 (DeepEqual h) (call_args c) (Params ?e)"
    and o: "list_all (\<lambda>p. TypeOf p = Some Kind_Ptr) (take (length (Output ?e)) (call_args c))"
    by (simp_all add: matches_def)
  show ?thesis
    unfolding invoke_query query_recognized [OF assms(1)] getFnName_call
      verifyParams_equal [OF assms(1) p] setOutputParams_pointers [OF assms(1) o]
    by (simp add: n name_errs_def errs_of_def)
qed

lemma session_conforming:
  "conforming lib h (drop (index it) (expectations it)) ss \<Longrightarrow>
   \<exists>it' h'. session lib ss (it, h) = Inr (it', h') \<and> testErrors it' = testErrors it \<and>
     index it' \<ge> length (expectations it) \<and>
     expectations it' = expectations it \<and>
     Error it' = (if drop (index it) (expectations it) = [] then Error it
                  else Error_exp (last (expectations it)))"
proof (induction ss arbitrary: it h)
  case Nil
  then have "drop (index it) (expectations it) = []" by simp
  then show ?case by simp
next
  case (Cons st ss)
  show ?case
  proof (cases st)
    case (Assign a d)
    with Cons.prems have "conforming lib (h(a := d)) (drop (index it) (expectations it)) ss"
      by simp
    from Cons.IH [OF this] obtain it' h' where
      "session lib ss (it, h(a := d)) = Inr (it', h')" and "testErrors it' = testErrors it"
      and "index it' \<ge> length (expectations it)" and "expectations it' = expectations it"
      and "Error it' = (if drop (index it) (expectations it) = [] then Error it
                  else Error_exp (last (expectations it)))"
      by blast
    then have "session lib (st # ss) (it, h) = Inr (it', h') \<and> testErrors it' = testErrors it \<and>
      index it' \<ge> length (expectations it) \<and> expectations it' = expectations it \<and>
      Error it' = (if drop (index it) (expectations it) = [] then Error it
                  else Error_exp (last (expectations it)))"
      unfolding Assign by simp
    then show ?thesis by blast
  next
    case (Invoke c)
    from Cons.prems Invoke obtain e es where d: "drop (index it) (expectations it) = e # es"
      by (cases "drop (index it) (expectations it)") simp_all
    then have lt: "index it < length (expectations it)"
      by (metis drop_all list.distinct(1) not_le)
    then have e: "e = expectations it ! index it" and es: "es = drop (Suc (index it)) (expectations it)"
      using d by (simp_all add: Cons_nth_drop_Suc [symmetric])
    let ?it1 = "it\<lparr>Error := Error_exp e, index := index it + 1\<rparr>"
    let ?h1 = "projected lib (Output e) (call_args c) h"
    from Cons.prems d Invoke have m: "matches h e c" and rest: "conforming lib ?h1 es ss"
      by simp_all
    have step: "invoke lib c (it, h) = Inr (?it1, ?h1)"
      using invoke_matching [OF lt, of h c lib] m by (simp add: e)
    have "conforming lib ?h1 (drop (index ?it1) (expectations ?it1)) ss"
      using rest by (simp add: es)
    from Cons.IH [OF this] obtain it' h' where
      r: "session lib ss (?it1, ?h1) = Inr (it', h')" and t: "testErrors it' = testErrors ?it1"
      and g: "index it' \<ge> length (expectations ?it1)"
      and x: "expectations it' = expectations ?it1"
      and er: "Error it' = (if drop (index ?it1) (expectations ?it1) = [] then Error ?it1
                            else Error_exp (last (expectations ?it1)))"
      by blast
    have "Error it' = Error_exp (last (expectations it))"
    proof (cases "es = []")
      case True
      with es lt have "index it + 1 = length (expectations it)" by simp
      then have "length (expectations it) - 1 = index it" by simp
      moreover have "expectations it \<noteq> []" using lt by auto
      ultimately have "last (expectations it) = e"
        by (simp add: e last_conv_nth)
      with er True es show ?thesis by simp
    next
      case False
      with er es show ?thesis by simp
    qed
    with step r t g x d show ?thesis
      by (simp add: Invoke)
  qed
qed

lemma Error_exp_foldl_builder:
  "Error_exp (foldl (builder h) e bs) =
     foldl (\<lambda>acc b. case b of CallWithError err \<Rightarrow> err | _ \<Rightarrow> acc) (Error_exp e) bs"
proof (induction bs arbitrary: e)
  case Nil
  then show ?case by simp
next
  case (Cons b bs)
  show ?case
    by (cases b) (simp_all add: Cons.IH WithParams_append WithOutput_append WithError_def)
qed

text \<open>
  Claim C1. On a new handle on which N expectations have been declared, let exactly
  the N declared operations be invoked, in declaration order, each with parameters
  deeply equal to the declared ones, or with any parameters where none were declared,
  and with arguments of pointer kind wherever an output was declared; between the
  calls the caller may assign to its variables. Then every call returns,
  \<^verbatim>\<open>ExpectationsMet\<close> returns nil, and the handle's \<^verbatim>\<open>Error\<close> field is the error
  declared for the last expectation, nil if none was declared for it or if N is 0.
\<close>

theorem matching_run_meets_expectations:
  assumes "it = expect_all h0 decls Open"
    and "conforming lib h (expectations it) steps"
  shows "\<exists>it' h'. session lib steps (it, h) = Inr (it', h') \<and>
           ExpectationsMet it' = None \<and>
           Error it' = (if decls = [] then None else declared_error (snd (last decls)))"
proof -
  let ?build = "\<lambda>ch. foldl (builder h0)
      \<lparr>Function = fst ch, Params = [], Output = [], Error_exp = None\<rparr> (snd ch)"
  have f: "index it = 0" "testErrors it = []" "Error it = None"
    "expectations it = map ?build decls"
    by (simp_all add: assms(1) expect_all_fields Open_def)
  from assms(2) have "conforming lib h (drop (index it) (expectations it)) steps"
    by (simp add: f)
  from session_conforming [OF this] obtain it' h' where
    r: "session lib steps (it, h) = Inr (it', h')" and t: "testErrors it' = []"
    and g: "index it' \<ge> length (expectations it)"
    and x: "expectations it' = expectations it"
    and er: "Error it' = (if expectations it = [] then None else Error_exp (last (expectations it)))"
    by (auto simp: f)
  have met: "ExpectationsMet it' = None"
    using t g x by (simp add: ExpectationsMet_def)
  have "Error it' = (if decls = [] then None else declared_error (snd (last decls)))"
  proof (cases "decls = []")
    case True
    with er f show ?thesis by simp
  next
    case False
    then have "Error_exp (last (expectations it)) = declared_error (snd (last decls))"
      by (simp add: f last_map Error_exp_foldl_builder declared_error_def)
    with er False f show ?thesis by simp
  qed
  with r met show ?thesis by blast
qed

theorem matching_run_meets_expectations_witness:
  "\<exists>it' h'.
     session json_codec
       [Invoke (First [Ptr 2]), Invoke (Where [Ptr 2, Val (DString ''a'')]),
        Assign 4 (DInt 9), Invoke (Save (Ptr 4))]
       (expect_all mem0
          [(''First'', [CallWithOutput [Ptr 3]]),
           (''Where'', [CallWithParams [Ptr 3, Val (DString ''a'')]]),
           (''Save'', [CallWithError (Some (OtherError ''record not found''))])]
          Open, mem0) = Inr (it', h') \<and>
     ExpectationsMet it' = None \<and>
     Error it' = Some (OtherError ''record not found'')"
proof -
  let ?decls = "[(''First'', [CallWithOutput [Ptr 3]]),
           (''Where'', [CallWithParams [Ptr 3, Val (DString ''a'')]]),
           (''Save'', [CallWithError (Some (OtherError ''record not found''))])]"
  let ?it = "expect_all mem0 ?decls Open"
  have es: "expectations ?it =
      [\<lparr>Function = ''First'', Params = [], Output = [SRef (user ''Bo'')], Error_exp = None\<rparr>,
       \<lparr>Function = ''Where'', Params = [Ptr 3, Val (DString ''a'')], Output = [], Error_exp = None\<rparr>,
       \<lparr>Function = ''Save'', Params = [], Output = [],
          Error_exp = Some (OtherError ''record not found'')\<rparr>]"
    by (simp add: engine_defs mem0_def)
  have c: "conforming json_codec mem0 (expectations ?it)
      [Invoke (First [Ptr 2]), Invoke (Where [Ptr 2, Val (DString ''a'')]),
       Assign 4 (DInt 9), Invoke (Save (Ptr 4))]"
    unfolding es
    by (simp add: matches_def projected_def deepCopy_def json_codec_def json_encode_def
        mem0_def user_def)
  show ?thesis
    using matching_run_meets_expectations [OF refl c]
    by (simp add: declared_error_def del: session.simps)
qed

end
